theory Spec2Isabelle
  imports Complex_Main
begin

section \<open>Data model of \<^verbatim>\<open>microscope/cameras/ximea.py\<close>\<close>

text \<open>
  The region of interest is the named tuple \<^verbatim>\<open>microscope.ROI(left, top, width, height)\<close>.
  The field \<^verbatim>\<open>top\<close> is written \<open>top'\<close>, since \<open>top\<close> is a constant of HOL.
\<close>

datatype ROI = ROI (left: int) (top': int) (width: int) (height: int)

text \<open>
  Python exceptions as values. \<^verbatim>\<open>xiapi.Xi_error\<close> carries the status code of the
  vendor library; the attribute may be missing (the source reads it with \<^verbatim>\<open>getattr\<close>
  in one place), hence the option. \<open>ValueError\<close> carries the two values that the message
  of line 328 is formatted from.
\<close>

datatype exn =
    Xi_error "int option"
  | ValueError ROI "int \<times> int"
  | AttributeError
  | ZeroDivisionError
  | OverflowError
  | KeyError
  | NotImplementedError
  | UnsupportedFeatureError string
  | UnsupportedOperationError
  | OtherError string

text \<open>The status codes of lines 78 to 83.\<close>

definition XI_TIMEOUT :: int where "XI_TIMEOUT = 10"
definition XI_INVALID_ARGUMENTS :: int where "XI_INVALID_ARGUMENTS = 11"
definition XI_NOT_SUPPORTED :: int where "XI_NOT_SUPPORTED = 12"
definition XI_NOT_IMPLEMENTED :: int where "XI_NOT_IMPLEMENTED = 26"
definition XI_ACQUISITION_STOPED :: int where "XI_ACQUISITION_STOPED = 45"
definition XI_UNKNOWN_PARAM :: int where "XI_UNKNOWN_PARAM = 100"

text \<open>
  The methods of the vendor handle (\<^verbatim>\<open>self._handle\<close>, an \<^verbatim>\<open>xiapi.Camera\<close>) that the
  camera class calls. The vendor library is outside the repository, so the device is a
  parameter of every operation: a function from a call and the state of the device to a
  result (an exception, or a number; a setter's number is ignored) and the next state of
  the device.
\<close>

datatype hw_call =
    set_offsetX int
  | set_offsetY int
  | set_width int
  | set_height int
  | get_height_increment
  | get_width_increment
  | get_offsetX_increment
  | get_offsetY_increment
  | start_acquisition
  | stop_acquisition
  | get_image
  | set_trigger_software int
  | set_trigger_source string
  | set_trigger_selector string
  | set_exposure_direct int

type_synonym 'h device = "hw_call \<Rightarrow> 'h \<Rightarrow> (exn + int) \<times> 'h"

text \<open>
  The trace is a ghost field: it records, in program order, every call made on the handle
  and every assignment to \<^verbatim>\<open>self._acquiring\<close>. No operation reads it; it is what the
  statements about "no call is made", "exactly one call" and "before the call" are
  about.
\<close>

datatype event = Hw hw_call | Acquiring bool

text \<open>
  The attributes of \<^verbatim>\<open>XimeaCamera\<close> (lines 143 to 151) and the attribute
  \<^verbatim>\<open>enabled\<close> of its base class.
\<close>

record 'h camera =
  enabled :: bool
  acquiring :: bool
  sensor_shape :: "int \<times> int"
  roi :: ROI
  binning :: "int \<times> int"
  trigger_map :: "string \<times> string"
  handle :: 'h
  trace :: "event list"

section \<open>Statements that may raise\<close>

text \<open>
  A method is a function from the camera to a result and the camera after it:
  \<open>Inl e\<close> is the exception \<open>e\<close> leaving the method, \<open>Inr v\<close> a normal return.
  A method keeps the name it has in the source, without the leading underscore of a
  private name: \<open>set_roi\<close> is \<^verbatim>\<open>_set_roi\<close>, \<open>do_enable\<close> is \<^verbatim>\<open>_do_enable\<close>,
  \<open>fetch_data\<close> is \<^verbatim>\<open>_fetch_data\<close>, \<open>disabled_camera\<close> is \<^verbatim>\<open>_disabled_camera\<close>.
  Calls of the logger are left out.
\<close>

type_synonym ('a, 'h) action = "'h camera \<Rightarrow> (exn + 'a) \<times> 'h camera"

definition ret :: "'a \<Rightarrow> ('a, 'h) action" where
  "ret v c = (Inr v, c)"

definition raise :: "exn \<Rightarrow> ('a, 'h) action" where
  "raise e c = (Inl e, c)"

text \<open>Sequencing: the second statement runs only if the first did not raise.\<close>

definition and_then :: "('a, 'h) action \<Rightarrow> ('a \<Rightarrow> ('b, 'h) action) \<Rightarrow> ('b, 'h) action" where
  "and_then m f c = (case m c of (Inl e, c') \<Rightarrow> (Inl e, c') | (Inr v, c') \<Rightarrow> f v c')"

text \<open>
  \<^verbatim>\<open>try: ... finally: fin()\<close>, applied to the outcome of the \<^verbatim>\<open>try\<close> block: \<open>fin\<close>
  always runs; an exception of \<open>fin\<close> replaces the outcome of the block.
\<close>

definition try_finally :: "(exn + 'a) \<times> 'h camera \<Rightarrow> (unit, 'h) action \<Rightarrow> (exn + 'a) \<times> 'h camera" where
  "try_finally outcome fin =
     (case outcome of (r, c) \<Rightarrow>
        (case fin c of (Inl e, c') \<Rightarrow> (Inl e, c') | (Inr _, c') \<Rightarrow> (r, c')))"

text \<open>A call on the handle, and an assignment to \<^verbatim>\<open>self._acquiring\<close>; both are traced.\<close>

definition call :: "'h device \<Rightarrow> hw_call \<Rightarrow> (int, 'h) action" where
  "call dev k c =
     (case dev k (handle c) of
        (r, h) \<Rightarrow> (r, c\<lparr>handle := h, trace := trace c @ [Hw k]\<rparr>))"

definition set_acquiring :: "bool \<Rightarrow> 'h camera \<Rightarrow> 'h camera" where
  "set_acquiring b c = c\<lparr>acquiring := b, trace := trace c @ [Acquiring b]\<rparr>"

section \<open>Acquisition state\<close>

text \<open>\<^verbatim>\<open>abort\<close>, lines 182 to 193.\<close>

definition abort :: "'h device \<Rightarrow> (unit, 'h) action" where
  "abort dev c =
     (if acquiring c then
        (case call dev stop_acquisition (set_acquiring False c) of
           (Inl e, c') \<Rightarrow> (Inl e, set_acquiring True c')
         | (Inr _, c') \<Rightarrow> (Inr (), c'))
      else (Inr (), c))"

text \<open>\<^verbatim>\<open>_do_disable\<close>, lines 263 and 264.\<close>

definition do_disable :: "'h device \<Rightarrow> (unit, 'h) action" where
  "do_disable dev = abort dev"

text \<open>\<^verbatim>\<open>_do_enable\<close>, lines 266 to 274.\<close>

definition do_enable :: "'h device \<Rightarrow> (bool, 'h) action" where
  "do_enable dev =
     and_then (\<lambda>c. if acquiring c then abort dev c else ret () c) (\<lambda>_.
     and_then (call dev start_acquisition) (\<lambda>_ c.
     ret True (set_acquiring True c)))"

text \<open>
  Modelled from the spec: the methods \<^verbatim>\<open>enable\<close> and \<^verbatim>\<open>disable\<close> of the base class
  (module \<^verbatim>\<open>microscope.abc\<close>), which are not among the sources. The spec (section 4.1)
  has \<^verbatim>\<open>enable\<close> run the device-specific start and, on hardware rejection, leave the state
  unchanged and surface the error; \<^verbatim>\<open>disable\<close> runs the device-specific stop (the abort)
  and surfaces its error. The attribute \<^verbatim>\<open>enabled\<close> is set to the result of
  \<^verbatim>\<open>_do_enable\<close>, and cleared by a \<^verbatim>\<open>disable\<close> that did not raise.
\<close>

definition enable :: "'h device \<Rightarrow> (unit, 'h) action" where
  "enable dev =
     and_then (do_enable dev) (\<lambda>result c. ret () (c\<lparr>enabled := result\<rparr>))"

definition disable :: "'h device \<Rightarrow> (unit, 'h) action" where
  "disable dev =
     and_then (do_disable dev) (\<lambda>_ c. ret () (c\<lparr>enabled := False\<rparr>))"

text \<open>
  The context managers \<^verbatim>\<open>_disabled_camera\<close> (lines 95 to 105) and
  \<^verbatim>\<open>_enabled_camera\<close> (lines 108 to 118). The body of the \<^verbatim>\<open>with\<close> statement is the
  parameter \<open>body\<close>; it runs where the generator yields.
\<close>

definition disabled_camera :: "'h device \<Rightarrow> ('a, 'h) action \<Rightarrow> ('a, 'h) action" where
  "disabled_camera dev body c =
     (if enabled c then
        try_finally (and_then (disable dev) (\<lambda>_. body) c) (enable dev)
      else body c)"

definition enabled_camera :: "'h device \<Rightarrow> ('a, 'h) action \<Rightarrow> ('a, 'h) action" where
  "enabled_camera dev body c =
     (if \<not> enabled c then
        try_finally (and_then (enable dev) (\<lambda>_. body) c) (disable dev)
      else body c)"

text \<open>
  \<^verbatim>\<open>_fetch_data\<close>, lines 155 to 180. The blocking call is \<^verbatim>\<open>get_image\<close> with a timeout
  of 1; the pixels are then read from the image buffer, here a function of the state of
  the device. The handler reads \<^verbatim>\<open>self._acquiring\<close> a second time (line 168). Within one
  thread the second read gives what the first gave; the source's comment is about a
  concurrent \<^verbatim>\<open>abort\<close> that clears the flag while \<^verbatim>\<open>get_image\<close> blocks. The value of the
  second read is therefore the parameter \<open>acquiring_now\<close>.
\<close>

definition fetch_data :: "'h device \<Rightarrow> ('h \<Rightarrow> 'd) \<Rightarrow> bool \<Rightarrow> ('d option, 'h) action" where
  "fetch_data dev image_data acquiring_now c =
     (if \<not> acquiring c then (Inr None, c)
      else
        (case call dev get_image c of
           (Inl (Xi_error status), c') \<Rightarrow>
             if status = Some XI_TIMEOUT then (Inr None, c')
             else if status = Some XI_ACQUISITION_STOPED \<and> \<not> acquiring_now then (Inr None, c')
             else (Inl (Xi_error status), c')
         | (Inl e, c') \<Rightarrow> (Inl e, c')
         | (Inr _, c') \<Rightarrow> (Inr (Some (image_data (handle c'))), c')))"

text \<open>
  \<^verbatim>\<open>set_exposure_time\<close>, lines 276 to 281. The argument \<open>us\<close> is the integer
  \<^verbatim>\<open>int(value * 1000000)\<close>; the floating-point product is not modelled. The handler of
  line 280 catches every exception, writes a debug message and ends.
\<close>

definition set_exposure_time :: "'h device \<Rightarrow> int \<Rightarrow> (unit, 'h) action" where
  "set_exposure_time dev us c =
     (case call dev (set_exposure_direct us) c of
        (Inl e, c') \<Rightarrow> (Inr (), c')
      | (Inr _, c') \<Rightarrow> (Inr (), c'))"

text \<open>\<^verbatim>\<open>_set_binning\<close>, lines 305 to 312.\<close>

definition set_binning :: "int \<times> int \<Rightarrow> (bool, 'h) action" where
  "set_binning b c = (if b = binning c then (Inr True, c) else (Inl NotImplementedError, c))"

section \<open>Triggers\<close>

text \<open>
  Modelled from the spec: the enumerations \<^verbatim>\<open>microscope.TriggerType\<close> and
  \<^verbatim>\<open>microscope.TriggerMode\<close>, declared in the package's \<^verbatim>\<open>__init__\<close> module, which is not
  among the sources. The spec (section 3) names the members \<^verbatim>\<open>SOFTWARE\<close>,
  \<^verbatim>\<open>RISING_EDGE\<close>, \<^verbatim>\<open>ONCE\<close> and \<^verbatim>\<open>STROBE\<close> and leaves the others open; each type has
  two further members here, so that pairs outside the table exist on both components.
  \<open>type_name\<close> and \<open>mode_name\<close> are the attribute \<^verbatim>\<open>name\<close> of a member.
\<close>

datatype TriggerType = SOFTWARE | RISING_EDGE | FALLING_EDGE | PULSE

datatype TriggerMode = ONCE | BULB | STROBE | START

fun type_name :: "TriggerType \<Rightarrow> string" where
  "type_name SOFTWARE = ''SOFTWARE''"
| "type_name RISING_EDGE = ''RISING_EDGE''"
| "type_name FALLING_EDGE = ''FALLING_EDGE''"
| "type_name PULSE = ''PULSE''"

fun mode_name :: "TriggerMode \<Rightarrow> string" where
  "mode_name ONCE = ''ONCE''"
| "mode_name BULB = ''BULB''"
| "mode_name STROBE = ''STROBE''"
| "mode_name START = ''START''"

text \<open>
  \<^verbatim>\<open>TRIGGER_TABLE\<close>, lines 121 to 126: a dictionary literal of four entries, the last two
  with the same key. A later entry of a literal replaces an earlier one with the same
  key, as a later update of the map does.
\<close>

definition TRIGGER_TABLE :: "TriggerType \<times> TriggerMode \<rightharpoonup> string \<times> string" where
  "TRIGGER_TABLE =
     [(SOFTWARE, STROBE) \<mapsto> (''XI_TRG_OFF'', ''XI_TRG_SEL_FRAME_START''),
      (SOFTWARE, ONCE) \<mapsto> (''XI_TRG_SOFTWARE'', ''XI_TRG_SEL_FRAME_START''),
      (RISING_EDGE, ONCE) \<mapsto> (''XI_TRG_EDGE_RISING'', ''XI_TRG_SEL_FRAME_START''),
      (RISING_EDGE, ONCE) \<mapsto> (''XI_TRG_EDGE_RISING'', ''XI_TRG_SEL_FRAME_START'')]"

text \<open>
  The subscription \<^verbatim>\<open>TRIGGER_TABLE[key]\<close>, which raises \<^verbatim>\<open>KeyError\<close> on a missing key.
\<close>

definition table_item :: "TriggerType \<times> TriggerMode \<Rightarrow> exn + string \<times> string" where
  "table_item key = (case TRIGGER_TABLE key of None \<Rightarrow> Inl KeyError | Some v \<Rightarrow> Inr v)"

text \<open>The properties \<^verbatim>\<open>trigger_mode\<close> and \<^verbatim>\<open>trigger_type\<close>, lines 402 to 408.\<close>

definition trigger_mode :: "'h camera \<Rightarrow> string" where
  "trigger_mode c = snd (trigger_map c)"

definition trigger_type :: "'h camera \<Rightarrow> string" where
  "trigger_type c = fst (trigger_map c)"

text \<open>
  \<^verbatim>\<open>set_trigger\<close>, lines 410 to 424. The message of the exception is the f-string of
  line 417.
\<close>

definition set_trigger :: "'h device \<Rightarrow> TriggerType \<Rightarrow> TriggerMode \<Rightarrow> (unit, 'h) action" where
  "set_trigger dev ttype tmode c =
     (case table_item (ttype, tmode) of
        Inl _ \<Rightarrow>
          (Inl (UnsupportedFeatureError
             (''TriggerType.'' @ type_name ttype @ '' - TriggerMode.'' @ mode_name tmode
                @ '' not supported'')), c)
      | Inr new_map \<Rightarrow>
          if new_map \<noteq> trigger_map c then
            and_then
              (disabled_camera dev
                 (and_then (call dev (set_trigger_source (fst new_map))) (\<lambda>_.
                  and_then (call dev (set_trigger_selector (snd new_map))) (\<lambda>_.
                  ret ()))))
              (\<lambda>_ c'. ret () (c'\<lparr>trigger_map := new_map\<rparr>)) c
          else (Inr (), c))"

text \<open>\<^verbatim>\<open>_do_trigger\<close>, lines 296 to 300.\<close>

definition do_trigger :: "'h device \<Rightarrow> (unit, 'h) action" where
  "do_trigger dev c =
     (case table_item (SOFTWARE, ONCE) of
        Inl e \<Rightarrow> (Inl e, c)
      | Inr m \<Rightarrow>
          if trigger_map c = m then
            and_then (call dev (set_trigger_software 1)) (\<lambda>_. ret ()) c
          else (Inr (), c))"

text \<open>
  Modelled from the spec: the method \<^verbatim>\<open>trigger\<close> of the base class (module
  \<^verbatim>\<open>microscope.abc\<close>), which is not among the sources; \<^verbatim>\<open>XimeaCamera\<close> only overrides
  \<^verbatim>\<open>_do_trigger\<close>. The spec (section 4.1): "only valid when the active TriggerSpec is
  software/once; any other active trigger spec causes trigger() to fail with an
  unsupported-operation error rather than sending a meaningless software pulse."
\<close>

definition trigger :: "'h device \<Rightarrow> (unit, 'h) action" where
  "trigger dev c =
     (if Inr (trigger_map c) = table_item (SOFTWARE, ONCE) then do_trigger dev c
      else (Inl UnsupportedOperationError, c))"

section \<open>Region of interest\<close>

text \<open>
  The quotient of two integers rounded to an integer, a half going to the even
  neighbour, by integer arithmetic. With the floor division of HOL (which is Python's),
  \<open>a = (a div b) * b + a mod b\<close> and the fractional part of the quotient is
  \<open>\<bar>a mod b\<bar> / \<bar>b\<bar>\<close>.
\<close>

definition rhe_div :: "int \<Rightarrow> int \<Rightarrow> int" where
  "rhe_div a b =
     (if 2 * \<bar>a mod b\<bar> < \<bar>b\<bar> then a div b
      else if \<bar>b\<bar> < 2 * \<bar>a mod b\<bar> then a div b + 1
      else if even (a div b) then a div b
      else a div b + 1)"


text \<open>The number of binary digits of a positive integer (\<^verbatim>\<open>int.bit_length\<close>).\<close>

function bit_length :: "int \<Rightarrow> nat" where
  "bit_length n = (if n \<le> 0 then 0 else Suc (bit_length (n div 2)))"
  by pat_completeness auto
termination
  by (relation "measure nat") auto

declare bit_length.simps [simp del]

text \<open>
  The binary exponent of the quotient of two non-zero integers: the \<open>k\<close> with
  \<open>2 ^ k \<le> \<bar>a / b\<bar> < 2 ^ (k + 1)\<close>. It is the difference of the bit lengths, or one
  less.
\<close>

definition binade :: "int \<Rightarrow> int \<Rightarrow> int" where
  "binade a b =
     (let d = int (bit_length \<bar>a\<bar>) - int (bit_length \<bar>b\<bar>)
      in if (if 0 \<le> d then \<bar>b\<bar> * 2 ^ nat d \<le> \<bar>a\<bar> else \<bar>b\<bar> \<le> \<bar>a\<bar> * 2 ^ nat (- d))
         then d else d - 1)"

text \<open>
  \<^verbatim>\<open>round(a / b)\<close> for integers \<open>a\<close> and \<open>b \<noteq> 0\<close>, as Python computes it. The
  division of two integers gives the double nearest to the exact quotient (a half of a
  unit in the last place going to the even significand), or raises \<^verbatim>\<open>OverflowError\<close>
  when that is \<open>2 ^ 1024\<close> or more in magnitude: a double is \<open>m * 2 ^ e\<close> with
  \<open>\<bar>m\<bar> \<le> 2 ^ 53\<close>, where \<open>e\<close> is 52 below the binary exponent of the quotient and at
  least \<open>- 1074\<close>. \<^verbatim>\<open>round\<close> then rounds that double to an integer, a half going
  to the even neighbour.
\<close>

definition py_round_div :: "int \<Rightarrow> int \<Rightarrow> exn + int" where
  "py_round_div a b =
     (if a = 0 then Inr 0
      else
        let e = max (binade a b - 52) (- 1074);
            m = (if 0 \<le> e then rhe_div a (b * 2 ^ nat e) else rhe_div (a * 2 ^ nat (- e)) b)
        in if 0 \<le> e then
             (if 2 ^ 1024 \<le> \<bar>m\<bar> * 2 ^ nat e then Inl OverflowError else Inr (m * 2 ^ nat e))
           else Inr (rhe_div m (2 ^ nat (- e))))"

text \<open>
  The expression of lines 362 and 363 (and of the three other axes):
  \<^verbatim>\<open>round(v / incr) * incr if (v % incr) != 0 else v\<close>. The condition is evaluated first
  and raises \<^verbatim>\<open>ZeroDivisionError\<close> when the increment is zero.
\<close>

definition snap :: "int \<Rightarrow> int \<Rightarrow> exn + int" where
  "snap v incr =
     (if incr = 0 then Inl ZeroDivisionError
      else if v mod incr \<noteq> 0 then
        (case py_round_div v incr of Inl e \<Rightarrow> Inl e | Inr n \<Rightarrow> Inr (n * incr))
      else Inr v)"

text \<open>
  One of the four blocks of lines 360 to 382: if the requested value differs from the
  mirrored one, read the increment, snap the value and write it to the device.
\<close>

definition adjust :: "'h device \<Rightarrow> hw_call \<Rightarrow> (int \<Rightarrow> hw_call) \<Rightarrow> int \<Rightarrow> int \<Rightarrow> (int, 'h) action" where
  "adjust dev get_incr setter requested mirrored =
     (if requested \<noteq> mirrored then
        and_then (call dev get_incr) (\<lambda>incr.
          case snap requested incr of
            Inl e \<Rightarrow> raise e
          | Inr v \<Rightarrow> and_then (call dev (setter v)) (\<lambda>_. ret v))
      else ret requested)"

text \<open>The body of the first \<^verbatim>\<open>with\<close> statement, lines 340 to 345.\<close>

definition roi_writes :: "'h device \<Rightarrow> ROI \<Rightarrow> (unit, 'h) action" where
  "roi_writes dev r =
     and_then (call dev (set_offsetX 0)) (\<lambda>_.
     and_then (call dev (set_offsetY 0)) (\<lambda>_.
     and_then (call dev (set_width (width r))) (\<lambda>_.
     and_then (call dev (set_height (height r))) (\<lambda>_.
     and_then (call dev (set_offsetX (left r))) (\<lambda>_.
     and_then (call dev (set_offsetY (top' r))) (\<lambda>_.
     ret ()))))))"

text \<open>
  The body of the second \<^verbatim>\<open>with\<close> statement, lines 353 to 385; it reads the mirrored
  region \<^verbatim>\<open>self._roi\<close> and gives the region that replaces the parameter \<^verbatim>\<open>roi\<close>.
\<close>

definition roi_retry :: "'h device \<Rightarrow> ROI \<Rightarrow> (ROI, 'h) action" where
  "roi_retry dev r c =
     (and_then (adjust dev get_height_increment set_height (height r) (height (roi c))) (\<lambda>h.
      and_then (adjust dev get_width_increment set_width (width r) (width (roi c))) (\<lambda>w.
      and_then (adjust dev get_offsetX_increment set_offsetX (left r) (left (roi c))) (\<lambda>l.
      and_then (adjust dev get_offsetY_increment set_offsetY (top' r) (top' (roi c))) (\<lambda>t.
      ret (ROI l t w h)))))) c"

text \<open>
  \<^verbatim>\<open>_set_roi\<close>, lines 323 to 390. The handler of line 386 calls the method again, with
  the mirrored region, and nothing bounds the depth of these calls: the first argument
  is the number of nested calls allowed, and \<open>None\<close> is a run that needs more.

  The first handler (line 346) takes every \<^verbatim>\<open>Xi_error\<close> raised in the \<^verbatim>\<open>try\<close> block:
  with the status of invalid arguments it runs the retry, whose own exceptions leave the
  method (a handler does not protect its sibling); reading \<^verbatim>\<open>err.status\<close> from an error
  without the attribute raises \<^verbatim>\<open>AttributeError\<close>; with any other status the handler
  ends with nothing done, and the method goes on to line 389. The second handler
  (line 386) takes the other exceptions.
\<close>

fun set_roi :: "nat \<Rightarrow> 'h device \<Rightarrow> ROI \<Rightarrow> 'h camera \<Rightarrow> ((exn + bool) \<times> 'h camera) option" where
  "set_roi 0 dev r c = None"
| "set_roi (Suc n) dev r c =
     (if fst (sensor_shape c) < width r + left r \<or> snd (sensor_shape c) < height r + top' r then
        Some (Inl (ValueError r (sensor_shape c)), c)
      else
        (case disabled_camera dev (roi_writes dev r) c of
           (Inr _, c1) \<Rightarrow> Some (Inr True, c1\<lparr>roi := r\<rparr>)
         | (Inl (Xi_error status), c1) \<Rightarrow>
             (case status of
                None \<Rightarrow> Some (Inl AttributeError, c1)
              | Some st \<Rightarrow>
                  if st = XI_INVALID_ARGUMENTS then
                    (case disabled_camera dev (roi_retry dev r) c1 of
                       (Inl e, c2) \<Rightarrow> Some (Inl e, c2)
                     | (Inr r', c2) \<Rightarrow> Some (Inr True, c2\<lparr>roi := r'\<rparr>))
                  else Some (Inr True, c1\<lparr>roi := r\<rparr>))
         | (Inl e, c1) \<Rightarrow>
             (case set_roi n dev (roi c1) c1 of
                None \<Rightarrow> None
              | Some (Inl e', c2) \<Rightarrow> Some (Inl e', c2)
              | Some (Inr _, c2) \<Rightarrow> Some (Inl e, c2))))"

text \<open>
  The multiple of \<open>incr\<close> nearest to \<open>v\<close>, the even multiple where two are equally
  near. For \<open>incr \<noteq> 0\<close> there is exactly one such multiple.
\<close>

definition nearest_multiple :: "int \<Rightarrow> int \<Rightarrow> int \<Rightarrow> bool" where
  "nearest_multiple incr v w \<longleftrightarrow>
     incr dvd w \<and> 2 * \<bar>w - v\<bar> \<le> \<bar>incr\<bar> \<and> (2 * \<bar>w - v\<bar> = \<bar>incr\<bar> \<longrightarrow> even (w div incr))"





section \<open>Devices for the examples\<close>

text \<open>
  A scripted device: its state is the list of the exceptions still to raise, each with
  the call it answers. A call that is next on the script raises the exception and is
  removed from the script; any other call succeeds, an increment being \<open>4\<close> and every
  other result \<open>0\<close>.
\<close>

definition is_get_incr :: "hw_call \<Rightarrow> bool" where
  "is_get_incr k =
     (k = get_height_increment \<or> k = get_width_increment
      \<or> k = get_offsetX_increment \<or> k = get_offsetY_increment)"

fun scripted :: "(hw_call \<times> exn) list device" where
  "scripted k [] = (Inr (if is_get_incr k then 4 else 0), [])"
| "scripted k ((k', e) # script) =
     (if k = k' then (Inl e, script)
      else (Inr (if is_get_incr k then 4 else 0), (k', e) # script))"

text \<open>
  A device that raises the exception \<open>e\<close> on the call \<open>k0\<close>, every time, and accepts
  every other call; its state is never used.
\<close>

definition refusing :: "hw_call \<Rightarrow> exn \<Rightarrow> unit device" where
  "refusing k0 e k h = (if k = k0 then (Inl e, h) else (Inr (if is_get_incr k then 4 else 0), h))"

text \<open>
  A camera after \<^verbatim>\<open>initialize\<close> on a sensor of 100 by 100 pixels: not acquiring, the
  full sensor as region, the software trigger of line 150.
\<close>

definition camera0 :: "'h \<Rightarrow> 'h camera" where
  "camera0 h =
     \<lparr>enabled = False, acquiring = False, sensor_shape = (100, 100),
      roi = ROI 0 0 100 100, binning = (1, 1),
      trigger_map = (''XI_TRG_SOFTWARE'', ''XI_TRG_SEL_FRAME_START''),
      handle = h, trace = []\<rparr>"

text \<open>The same camera while it acquires.\<close>

definition camera1 :: "'h \<Rightarrow> 'h camera" where
  "camera1 h = (camera0 h)\<lparr>enabled := True, acquiring := True\<rparr>"

section \<open>Reachable states\<close>

text \<open>
  The states a camera can be in: \<^verbatim>\<open>__init__\<close> leaves the trigger mapping of line 150,
  and every public operation, on any device, leads from a state to a state.
\<close>

inductive reachable :: "'h camera \<Rightarrow> bool" where
  init: "table_item (SOFTWARE, ONCE) = Inr (trigger_map c) \<Longrightarrow> reachable c"
| by_set_trigger: "reachable c \<Longrightarrow> set_trigger dev ttype tmode c = (res, c') \<Longrightarrow> reachable c'"
| by_set_roi: "reachable c \<Longrightarrow> set_roi n dev r c = Some (res', c') \<Longrightarrow> reachable c'"
| by_enable: "reachable c \<Longrightarrow> enable dev c = (res, c') \<Longrightarrow> reachable c'"
| by_disable: "reachable c \<Longrightarrow> disable dev c = (res, c') \<Longrightarrow> reachable c'"
| by_abort: "reachable c \<Longrightarrow> abort dev c = (res, c') \<Longrightarrow> reachable c'"
| by_trigger: "reachable c \<Longrightarrow> trigger dev c = (res, c') \<Longrightarrow> reachable c'"
| by_fetch_data: "reachable c \<Longrightarrow> fetch_data dev (image_data :: 'h \<Rightarrow> int list) now c = (res'', c') \<Longrightarrow> reachable c'"
| by_set_exposure_time: "reachable c \<Longrightarrow> set_exposure_time dev us c = (res, c') \<Longrightarrow> reachable c'"
| by_set_binning: "reachable c \<Longrightarrow> set_binning b c = (res', c') \<Longrightarrow> reachable c'"

section \<open>The mirrored settings\<close>

text \<open>
  Two states have the same mirror when they agree on the attributes that mirror settings
  of the device; an action keeps the mirror when it never changes them.
\<close>

definition same_mirror :: "'h camera \<Rightarrow> 'h camera \<Rightarrow> bool" where
  "same_mirror c c' \<longleftrightarrow>
     sensor_shape c' = sensor_shape c \<and> roi c' = roi c \<and> binning c' = binning c
     \<and> trigger_map c' = trigger_map c"

definition keeps_mirror :: "('a, 'h) action \<Rightarrow> bool" where
  "keeps_mirror m \<longleftrightarrow> (\<forall>c. same_mirror c (snd (m c)))"

section \<open>Stopping the acquisition\<close>

lemma abort_idle: "\<not> acquiring c \<Longrightarrow> abort dev c = (Inr (), c)"
  by (simp add: abort_def)

lemma abort_stopped:
  "acquiring c \<Longrightarrow> dev stop_acquisition (handle c) = (Inr v, h) \<Longrightarrow>
   abort dev c = (Inr (), c\<lparr>acquiring := False, handle := h,
                             trace := trace c @ [Acquiring False, Hw stop_acquisition]\<rparr>)"
  by (simp add: abort_def call_def set_acquiring_def)

lemma abort_failed:
  "acquiring c \<Longrightarrow> dev stop_acquisition (handle c) = (Inl e, h) \<Longrightarrow>
   abort dev c = (Inl e, c\<lparr>acquiring := True, handle := h,
                    trace := trace c @ [Acquiring False, Hw stop_acquisition, Acquiring True]\<rparr>)"
  by (simp add: abort_def call_def set_acquiring_def)

text \<open>
  Claim C4. \<^verbatim>\<open>abort\<close>, and \<^verbatim>\<open>_do_disable\<close> which is \<^verbatim>\<open>abort\<close>, changes nothing and calls
  nothing when the camera is not acquiring. When it is acquiring, the flag is cleared
  first and the stop call is issued after it (the order of the two events in the trace);
  if the stop call returns, the camera ends not acquiring; if it raises, the flag is set
  back and the exception of the device is the exception of \<^verbatim>\<open>abort\<close>.
\<close>

theorem abort_marks_then_stops:
  "do_disable dev c = abort dev c \<and>
   (\<not> acquiring c \<longrightarrow> abort dev c = (Inr (), c)) \<and>
   (acquiring c \<longrightarrow>
      (\<forall>v h. dev stop_acquisition (handle c) = (Inr v, h) \<longrightarrow>
         abort dev c = (Inr (), c\<lparr>acquiring := False, handle := h,
                             trace := trace c @ [Acquiring False, Hw stop_acquisition]\<rparr>)) \<and>
      (\<forall>e h. dev stop_acquisition (handle c) = (Inl e, h) \<longrightarrow>
         abort dev c = (Inl e, c\<lparr>acquiring := True, handle := h,
                    trace := trace c @ [Acquiring False, Hw stop_acquisition, Acquiring True]\<rparr>)))"
  by (simp add: do_disable_def abort_idle abort_stopped abort_failed)

theorem abort_marks_then_stops_witness:
  "abort scripted (camera0 []) = (Inr (), camera0 []) \<and>
   abort scripted (camera1 []) =
     (Inr (), (camera1 [])\<lparr>acquiring := False,
                            trace := [Acquiring False, Hw stop_acquisition]\<rparr>) \<and>
   abort scripted (camera1 [(stop_acquisition, Xi_error (Some 1))]) =
     (Inl (Xi_error (Some 1)),
      (camera1 [])\<lparr>trace := [Acquiring False, Hw stop_acquisition, Acquiring True]\<rparr>)"
  using abort_marks_then_stops [of scripted "camera0 []"]
    abort_marks_then_stops [of scripted "camera1 []"]
    abort_marks_then_stops [of scripted "camera1 [(stop_acquisition, Xi_error (Some 1))]"]
  by (simp add: camera0_def camera1_def)

section \<open>Actions that keep the mirror\<close>

lemma same_mirror_refl: "same_mirror c c"
  by (simp add: same_mirror_def)

lemma same_mirror_trans: "same_mirror a b \<Longrightarrow> same_mirror b c \<Longrightarrow> same_mirror a c"
  by (simp add: same_mirror_def)

lemma keeps_mirrorD: "keeps_mirror m \<Longrightarrow> m c = (r, c') \<Longrightarrow> same_mirror c c'"
  by (auto simp add: keeps_mirror_def dest: spec [of _ c])

lemma keeps_ret: "keeps_mirror (ret v)"
  by (simp add: keeps_mirror_def ret_def same_mirror_def)

lemma keeps_raise: "keeps_mirror (raise e)"
  by (simp add: keeps_mirror_def raise_def same_mirror_def)

lemma keeps_call: "keeps_mirror (call dev k)"
  by (simp add: keeps_mirror_def call_def same_mirror_def split: prod.splits)

lemma keeps_and_then:
  assumes "keeps_mirror m" and "\<And>v. keeps_mirror (f v)"
  shows "keeps_mirror (and_then m f)"
  unfolding keeps_mirror_def
proof
  fix c
  obtain r c1 where m: "m c = (r, c1)" by (cases "m c")
  have 1: "same_mirror c c1" using assms(1) m by (rule keeps_mirrorD)
  show "same_mirror c (snd (and_then m f c))"
  proof (cases r)
    case (Inl e)
    then show ?thesis using m 1 by (simp add: and_then_def)
  next
    case (Inr v)
    obtain r2 c2 where f: "f v c1 = (r2, c2)" by (cases "f v c1")
    have "same_mirror c1 c2" using assms(2) f by (rule keeps_mirrorD)
    then show ?thesis using Inr m f 1 by (auto simp add: and_then_def intro: same_mirror_trans)
  qed
qed

lemma keeps_abort: "keeps_mirror (abort dev)"
  by (simp add: keeps_mirror_def abort_def call_def set_acquiring_def same_mirror_def
      split: prod.splits sum.splits)

lemma keeps_do_enable: "keeps_mirror (do_enable dev)"
proof -
  have 1: "keeps_mirror (\<lambda>c. if acquiring c then abort dev c else ret () c)"
    using keeps_abort [of dev] by (simp add: keeps_mirror_def ret_def same_mirror_refl)
  have 2: "keeps_mirror (\<lambda>c. ret True (set_acquiring True c))"
    by (simp add: keeps_mirror_def ret_def set_acquiring_def same_mirror_def)
  show ?thesis
    unfolding do_enable_def by (intro keeps_and_then keeps_call 1 2)
qed

lemma keeps_enable: "keeps_mirror (enable dev)"
  unfolding enable_def
  by (intro keeps_and_then keeps_do_enable)
    (simp add: keeps_mirror_def ret_def same_mirror_def)

lemma keeps_disable: "keeps_mirror (disable dev)"
  unfolding disable_def do_disable_def
  by (intro keeps_and_then keeps_abort)
    (simp add: keeps_mirror_def ret_def same_mirror_def)

lemma same_mirror_try_finally:
  assumes "same_mirror c (snd outcome)" and "keeps_mirror fin"
  shows "same_mirror c (snd (try_finally outcome fin))"
proof -
  obtain r c1 where o: "outcome = (r, c1)" by (cases outcome)
  obtain r2 c2 where f: "fin c1 = (r2, c2)" by (cases "fin c1")
  have "same_mirror c1 c2" using assms(2) f by (rule keeps_mirrorD)
  with assms(1) o have "same_mirror c c2" by (auto intro: same_mirror_trans)
  then show ?thesis using o f by (cases r2) (simp_all add: try_finally_def)
qed

lemma keeps_disabled_camera:
  assumes "keeps_mirror body"
  shows "keeps_mirror (disabled_camera dev body)"
  unfolding keeps_mirror_def
proof
  fix c
  have "keeps_mirror (and_then (disable dev) (\<lambda>_. body))"
    using assms by (intro keeps_and_then keeps_disable)
  then have "same_mirror c (snd (and_then (disable dev) (\<lambda>_. body) c))"
    by (simp add: keeps_mirror_def)
  then have "same_mirror c (snd (try_finally (and_then (disable dev) (\<lambda>_. body) c) (enable dev)))"
    using keeps_enable by (rule same_mirror_try_finally)
  moreover have "same_mirror c (snd (body c))"
    using assms by (simp add: keeps_mirror_def)
  ultimately show "same_mirror c (snd (disabled_camera dev body c))"
    by (simp add: disabled_camera_def)
qed

lemma keeps_roi_writes: "keeps_mirror (roi_writes dev r)"
  unfolding roi_writes_def
  by (intro keeps_and_then keeps_call keeps_ret)

lemma keeps_adjust: "keeps_mirror (adjust dev g s v w)"
  unfolding adjust_def
  by (auto intro!: keeps_and_then keeps_call keeps_ret keeps_raise split: sum.splits)

lemma keeps_roi_retry: "keeps_mirror (roi_retry dev r)"
proof -
  have "keeps_mirror (and_then (adjust dev get_height_increment set_height (height r) hh) (\<lambda>h.
      and_then (adjust dev get_width_increment set_width (width r) ww) (\<lambda>w.
      and_then (adjust dev get_offsetX_increment set_offsetX (left r) ll) (\<lambda>l.
      and_then (adjust dev get_offsetY_increment set_offsetY (top' r) tt) (\<lambda>t.
      ret (ROI l t w h))))))" for hh ww ll tt
    by (intro keeps_and_then keeps_adjust keeps_ret)
  then show ?thesis
    by (simp add: keeps_mirror_def roi_retry_def)
qed

lemma set_roi_trigger_map:
  "set_roi n dev r c = Some (res, c') \<Longrightarrow> trigger_map c' = trigger_map c"
proof (induction n arbitrary: r c res c')
  case 0
  then show ?case by simp
next
  case (Suc n)
  show ?case
  proof (cases "fst (sensor_shape c) < width r + left r \<or> snd (sensor_shape c) < height r + top' r")
    case True
    with Suc.prems show ?thesis by simp
  next
    case False
    obtain r1 c1 where w: "disabled_camera dev (roi_writes dev r) c = (r1, c1)"
      by (cases "disabled_camera dev (roi_writes dev r) c")
    have m1: "same_mirror c c1"
      using keeps_disabled_camera [OF keeps_roi_writes] w by (rule keeps_mirrorD)
    obtain r2 c2 where t: "disabled_camera dev (roi_retry dev r) c1 = (r2, c2)"
      by (cases "disabled_camera dev (roi_retry dev r) c1")
    have m2: "same_mirror c1 c2"
      using keeps_disabled_camera [OF keeps_roi_retry] t by (rule keeps_mirrorD)
    have rec: "set_roi n dev (roi c1) c1 = Some (res', c3) \<Longrightarrow> trigger_map c3 = trigger_map c1" for res' c3
      by (rule Suc.IH)
    show ?thesis
      using Suc.prems False w t m1 m2 rec
      by (auto simp add: same_mirror_def split: sum.splits exn.splits option.splits if_splits prod.splits)
  qed
qed

section \<open>Starting the acquisition\<close>

lemma do_enable_idle_ok:
  "\<not> acquiring c \<Longrightarrow> dev start_acquisition (handle c) = (Inr v, h) \<Longrightarrow>
   do_enable dev c = (Inr True, c\<lparr>acquiring := True, handle := h,
       trace := trace c @ [Hw start_acquisition, Acquiring True]\<rparr>)"
  by (simp add: do_enable_def and_then_def ret_def call_def set_acquiring_def)

lemma do_enable_idle_rejected:
  "\<not> acquiring c \<Longrightarrow> dev start_acquisition (handle c) = (Inl e, h) \<Longrightarrow>
   do_enable dev c = (Inl e, c\<lparr>handle := h, trace := trace c @ [Hw start_acquisition]\<rparr>)"
  by (simp add: do_enable_def and_then_def ret_def call_def set_acquiring_def)

lemma do_enable_abort_failed:
  "acquiring c \<Longrightarrow> dev stop_acquisition (handle c) = (Inl e, h) \<Longrightarrow>
   do_enable dev c = (Inl e, c\<lparr>acquiring := True, handle := h,
       trace := trace c @ [Acquiring False, Hw stop_acquisition, Acquiring True]\<rparr>)"
  by (simp add: do_enable_def and_then_def abort_failed)

lemma do_enable_restart_ok:
  "acquiring c \<Longrightarrow> dev stop_acquisition (handle c) = (Inr v, h) \<Longrightarrow>
   dev start_acquisition h = (Inr v', h') \<Longrightarrow>
   do_enable dev c = (Inr True, c\<lparr>acquiring := True, handle := h',
       trace := trace c @ [Acquiring False, Hw stop_acquisition, Hw start_acquisition, Acquiring True]\<rparr>)"
  by (simp add: do_enable_def and_then_def abort_stopped ret_def call_def set_acquiring_def)

lemma do_enable_restart_rejected:
  "acquiring c \<Longrightarrow> dev stop_acquisition (handle c) = (Inr v, h) \<Longrightarrow>
   dev start_acquisition h = (Inl e, h') \<Longrightarrow>
   do_enable dev c = (Inl e, c\<lparr>acquiring := False, handle := h',
       trace := trace c @ [Acquiring False, Hw stop_acquisition, Hw start_acquisition]\<rparr>)"
  by (simp add: do_enable_def and_then_def abort_stopped ret_def call_def set_acquiring_def)

text \<open>
  Claim C5, as the code has it. \<^verbatim>\<open>_do_enable\<close> on a camera that is not acquiring
  issues one start call; if the device accepts it the camera ends acquiring, if the
  device rejects it the exception of the device leaves the method and the flag is as it
  was. On a camera that is acquiring it aborts first. If the stop call of the abort
  raises, that exception leaves the method, the camera is still acquiring and no start
  call is issued. Otherwise one start call follows the stop call; accepted, the camera
  ends acquiring; rejected, the exception leaves the method and the camera ends not
  acquiring, which is not the state it had before the call.
\<close>

theorem do_enable_cases:
  "(\<not> acquiring c \<longrightarrow>
      (\<forall>v h. dev start_acquisition (handle c) = (Inr v, h) \<longrightarrow>
         do_enable dev c = (Inr True, c\<lparr>acquiring := True, handle := h,
           trace := trace c @ [Hw start_acquisition, Acquiring True]\<rparr>)) \<and>
      (\<forall>e h. dev start_acquisition (handle c) = (Inl e, h) \<longrightarrow>
         do_enable dev c = (Inl e, c\<lparr>handle := h,
           trace := trace c @ [Hw start_acquisition]\<rparr>))) \<and>
   (acquiring c \<longrightarrow>
      (\<forall>e h. dev stop_acquisition (handle c) = (Inl e, h) \<longrightarrow>
         do_enable dev c = (Inl e, c\<lparr>acquiring := True, handle := h,
           trace := trace c @ [Acquiring False, Hw stop_acquisition, Acquiring True]\<rparr>)) \<and>
      (\<forall>v h. dev stop_acquisition (handle c) = (Inr v, h) \<longrightarrow>
         (\<forall>v' h'. dev start_acquisition h = (Inr v', h') \<longrightarrow>
            do_enable dev c = (Inr True, c\<lparr>acquiring := True, handle := h',
              trace := trace c @ [Acquiring False, Hw stop_acquisition,
                                   Hw start_acquisition, Acquiring True]\<rparr>)) \<and>
         (\<forall>e h'. dev start_acquisition h = (Inl e, h') \<longrightarrow>
            do_enable dev c = (Inl e, c\<lparr>acquiring := False, handle := h',
              trace := trace c @ [Acquiring False, Hw stop_acquisition,
                                   Hw start_acquisition]\<rparr>))))"
  using do_enable_idle_ok [of c dev] do_enable_idle_rejected [of c dev]
    do_enable_abort_failed [of c dev] do_enable_restart_ok [of c dev]
    do_enable_restart_rejected [of c dev]
  by blast

theorem do_enable_cases_witness:
  "do_enable scripted (camera0 []) =
     (Inr True, (camera0 [])\<lparr>acquiring := True, trace := [Hw start_acquisition, Acquiring True]\<rparr>) \<and>
   do_enable scripted (camera0 [(start_acquisition, Xi_error (Some 1))]) =
     (Inl (Xi_error (Some 1)), (camera0 [])\<lparr>trace := [Hw start_acquisition]\<rparr>) \<and>
   do_enable scripted (camera1 [(stop_acquisition, Xi_error (Some 1))]) =
     (Inl (Xi_error (Some 1)),
      (camera1 [])\<lparr>trace := [Acquiring False, Hw stop_acquisition, Acquiring True]\<rparr>) \<and>
   do_enable scripted (camera1 []) =
     (Inr True, (camera1 [])\<lparr>trace := [Acquiring False, Hw stop_acquisition,
                                          Hw start_acquisition, Acquiring True]\<rparr>)"
  using do_enable_cases [of "camera0 []" scripted]
    do_enable_cases [of "camera0 [(start_acquisition, Xi_error (Some 1))]" scripted]
    do_enable_cases [of "camera1 [(stop_acquisition, Xi_error (Some 1))]" scripted]
    do_enable_cases [of "camera1 []" scripted]
  by (simp add: camera0_def camera1_def)

text \<open>
  The claim as stated fails on an acquiring camera whose device accepts the stop call
  and rejects the start call: the exception leaves \<^verbatim>\<open>_do_enable\<close>, and the camera that
  was acquiring is not acquiring any more.
\<close>

theorem do_enable_rejected_counterexample:
  "acquiring (camera1 [(start_acquisition, Xi_error (Some 1))]) \<and>
   do_enable scripted (camera1 [(start_acquisition, Xi_error (Some 1))]) =
     (Inl (Xi_error (Some 1)),
      (camera1 [])\<lparr>acquiring := False,
                    trace := [Acquiring False, Hw stop_acquisition, Hw start_acquisition]\<rparr>) \<and>
   \<not> acquiring (snd (do_enable scripted (camera1 [(start_acquisition, Xi_error (Some 1))])))"
  by (simp add: do_enable_def and_then_def abort_def ret_def call_def set_acquiring_def
      camera0_def camera1_def)

section \<open>Fetching a frame\<close>

lemma fetch_data_acquiring: "acquiring (snd (fetch_data dev image_data now c)) = acquiring c"
  by (simp add: fetch_data_def call_def split: prod.splits sum.splits exn.splits)

text \<open>
  Claim C7. A fetch on a camera that is not acquiring gives no data and calls nothing.
  On an acquiring camera whose \<^verbatim>\<open>get_image\<close> raises: a timeout gives no data; the
  status of a stopped acquisition gives no data when the flag, read again by the handler,
  is cleared; every other exception (a stopped acquisition with the flag still set, any
  other status, an error without status, an exception of another class) leaves the
  method as it is. In each case the fetch made the one call and changed nothing else:
  the acquisition flag is the one before the call.
\<close>

theorem fetch_data_errors:
  "acquiring (snd (fetch_data dev image_data now c)) = acquiring c \<and>
   (\<not> acquiring c \<longrightarrow> fetch_data dev image_data now c = (Inr None, c)) \<and>
   (acquiring c \<longrightarrow>
      (\<forall>e h. dev get_image (handle c) = (Inl e, h) \<longrightarrow>
         fetch_data dev image_data now c =
           (if e = Xi_error (Some XI_TIMEOUT) then Inr None
            else if e = Xi_error (Some XI_ACQUISITION_STOPED) \<and> \<not> now then Inr None
            else Inl e,
            c\<lparr>handle := h, trace := trace c @ [Hw get_image]\<rparr>)))"
  by (auto simp add: fetch_data_acquiring) (auto simp add: fetch_data_def call_def split: exn.splits)

theorem fetch_data_errors_witness:
  "fetch_data scripted length False (camera0 []) = (Inr None, camera0 []) \<and>
   fetch_data scripted length False (camera1 [(get_image, Xi_error (Some 10))]) =
     (Inr None, (camera1 [])\<lparr>trace := [Hw get_image]\<rparr>) \<and>
   fetch_data scripted length False (camera1 [(get_image, Xi_error (Some 45))]) =
     (Inr None, (camera1 [])\<lparr>trace := [Hw get_image]\<rparr>) \<and>
   fetch_data scripted length True (camera1 [(get_image, Xi_error (Some 45))]) =
     (Inl (Xi_error (Some 45)), (camera1 [])\<lparr>trace := [Hw get_image]\<rparr>) \<and>
   fetch_data scripted length False (camera1 [(get_image, Xi_error None)]) =
     (Inl (Xi_error None), (camera1 [])\<lparr>trace := [Hw get_image]\<rparr>) \<and>
   fetch_data scripted length False (camera1 [(get_image, OtherError ''usb'')]) =
     (Inl (OtherError ''usb''), (camera1 [])\<lparr>trace := [Hw get_image]\<rparr>)"
  using fetch_data_errors [of scripted length False "camera0 []"]
    fetch_data_errors [of scripted length False "camera1 [(get_image, Xi_error (Some 10))]"]
    fetch_data_errors [of scripted length False "camera1 [(get_image, Xi_error (Some 45))]"]
    fetch_data_errors [of scripted length True "camera1 [(get_image, Xi_error (Some 45))]"]
    fetch_data_errors [of scripted length False "camera1 [(get_image, Xi_error None)]"]
    fetch_data_errors [of scripted length False "camera1 [(get_image, OtherError ''usb'')]"]
  by (simp add: camera0_def camera1_def XI_TIMEOUT_def XI_ACQUISITION_STOPED_def)

section \<open>The trigger table\<close>

lemma table_item_software_once [simp]:
  "table_item (SOFTWARE, ONCE) = Inr (''XI_TRG_SOFTWARE'', ''XI_TRG_SEL_FRAME_START'')"
  by (simp add: table_item_def TRIGGER_TABLE_def)

lemma TRIGGER_TABLE_dom:
  "dom TRIGGER_TABLE = {(SOFTWARE, STROBE), (SOFTWARE, ONCE), (RISING_EDGE, ONCE)}"
  by (auto simp add: TRIGGER_TABLE_def split: if_splits)

lemma TRIGGER_TABLE_ran:
  "TRIGGER_TABLE key = Some m \<Longrightarrow>
   fst m \<in> {''XI_TRG_OFF'', ''XI_TRG_SOFTWARE'', ''XI_TRG_EDGE_RISING''}
   \<and> snd m = ''XI_TRG_SEL_FRAME_START''"
  by (auto simp add: TRIGGER_TABLE_def split: if_splits)

text \<open>
  Claim C8. For a pair of type and mode that is not a key of the table, \<^verbatim>\<open>set_trigger\<close>
  raises \<^verbatim>\<open>UnsupportedFeatureError\<close> with the message that names the type and the mode,
  and the camera, its cached trigger mapping included, is as before; no call is made.
\<close>

theorem set_trigger_unmapped:
  "TRIGGER_TABLE (ttype, tmode) = None \<Longrightarrow>
   set_trigger dev ttype tmode c =
     (Inl (UnsupportedFeatureError
        (''TriggerType.'' @ type_name ttype @ '' - TriggerMode.'' @ mode_name tmode
           @ '' not supported'')), c)"
  by (simp add: set_trigger_def table_item_def)

theorem set_trigger_unmapped_witness:
  "TRIGGER_TABLE (PULSE, BULB) = None \<and>
   set_trigger scripted PULSE BULB (camera1 []) =
     (Inl (UnsupportedFeatureError ''TriggerType.PULSE - TriggerMode.BULB not supported''),
      camera1 [])"
proof -
  have h: "TRIGGER_TABLE (PULSE, BULB) = None"
    by (simp add: TRIGGER_TABLE_def)
  show ?thesis
    using h set_trigger_unmapped [OF h, of scripted "camera1 []"] by simp
qed

section \<open>The software trigger\<close>

lemma do_trigger_other:
  "Inr (trigger_map c) \<noteq> table_item (SOFTWARE, ONCE) \<Longrightarrow> do_trigger dev c = (Inr (), c)"
  by (auto simp add: do_trigger_def)

lemma do_trigger_software_once:
  "Inr (trigger_map c) = table_item (SOFTWARE, ONCE) \<Longrightarrow>
   do_trigger dev c =
     (case dev (set_trigger_software 1) (handle c) of
        (Inl e, h) \<Rightarrow> (Inl e, c\<lparr>handle := h, trace := trace c @ [Hw (set_trigger_software 1)]\<rparr>)
      | (Inr v, h) \<Rightarrow> (Inr (), c\<lparr>handle := h, trace := trace c @ [Hw (set_trigger_software 1)]\<rparr>))"
  by (auto simp add: do_trigger_def and_then_def call_def ret_def split: prod.splits sum.splits)

text \<open>
  Claim C2. When the cached trigger mapping is not the one of software/once, \<^verbatim>\<open>trigger\<close>
  raises the unsupported-operation error and the camera, its trace included, is as
  before: no pulse is sent. \<^verbatim>\<open>_do_trigger\<close> of the source, called directly in such a
  state, sends no pulse either, and returns. A \<^verbatim>\<open>trigger\<close> that returns found the
  mapping of software/once and made exactly the one call \<^verbatim>\<open>set_trigger_software(1)\<close>.
\<close>

theorem trigger_only_software_once:
  "(Inr (trigger_map c) \<noteq> table_item (SOFTWARE, ONCE) \<longrightarrow>
      trigger dev c = (Inl UnsupportedOperationError, c) \<and> do_trigger dev c = (Inr (), c)) \<and>
   (\<forall>c'. trigger dev c = (Inr (), c') \<longrightarrow>
      Inr (trigger_map c) = table_item (SOFTWARE, ONCE) \<and>
      trace c' = trace c @ [Hw (set_trigger_software 1)])"
  by (auto simp add: trigger_def do_trigger_other do_trigger_software_once
      split: prod.splits sum.splits)

theorem trigger_only_software_once_witness:
  "trigger scripted ((camera1 [])\<lparr>trigger_map := (''XI_TRG_OFF'', ''XI_TRG_SEL_FRAME_START'')\<rparr>) =
     (Inl UnsupportedOperationError,
      (camera1 [])\<lparr>trigger_map := (''XI_TRG_OFF'', ''XI_TRG_SEL_FRAME_START'')\<rparr>) \<and>
   do_trigger scripted ((camera1 [])\<lparr>trigger_map := (''XI_TRG_EDGE_RISING'', ''XI_TRG_SEL_FRAME_START'')\<rparr>) =
     (Inr (), (camera1 [])\<lparr>trigger_map := (''XI_TRG_EDGE_RISING'', ''XI_TRG_SEL_FRAME_START'')\<rparr>) \<and>
   trigger scripted (camera1 []) =
     (Inr (), (camera1 [])\<lparr>trace := [Hw (set_trigger_software 1)]\<rparr>)"
proof -
  have t: "trigger scripted (camera1 []) =
     (Inr (), (camera1 [])\<lparr>trace := [Hw (set_trigger_software 1)]\<rparr>)"
    by (simp add: trigger_def do_trigger_def and_then_def call_def ret_def camera1_def camera0_def)
  show ?thesis
    using trigger_only_software_once [of "(camera1 [])\<lparr>trigger_map := (''XI_TRG_OFF'', ''XI_TRG_SEL_FRAME_START'')\<rparr>" scripted]
      trigger_only_software_once [of "(camera1 [])\<lparr>trigger_map := (''XI_TRG_EDGE_RISING'', ''XI_TRG_SEL_FRAME_START'')\<rparr>" scripted]
      trigger_only_software_once [of "camera1 []" scripted] t
    by (simp add: camera1_def camera0_def)
qed

section \<open>The scoped helpers\<close>

lemma and_then_Inr:
  "and_then m f c = (Inr v, c') \<Longrightarrow> \<exists>u c1. m c = (Inr u, c1) \<and> f u c1 = (Inr v, c')"
  by (auto simp add: and_then_def split: prod.splits sum.splits)

lemma try_finally_cases:
  "try_finally (r, c2) fin = (r', c') \<Longrightarrow>
   (r' = r \<and> fin c2 = (Inr (), c')) \<or> (\<exists>e. r' = Inl e \<and> fin c2 = (Inl e, c'))"
  by (auto simp add: try_finally_def split: prod.splits sum.splits)

lemma enable_Inr: "enable dev c = (Inr u, c') \<Longrightarrow> enabled c' \<and> acquiring c'"
  by (auto simp add: enable_def do_enable_def and_then_def ret_def set_acquiring_def
      split: prod.splits sum.splits if_splits)

lemma abort_Inr: "abort dev c = (Inr u, c') \<Longrightarrow> \<not> acquiring c'"
  by (auto simp add: abort_def call_def set_acquiring_def split: prod.splits sum.splits if_splits)

lemma disable_Inr: "disable dev c = (Inr u, c') \<Longrightarrow> \<not> enabled c' \<and> \<not> acquiring c'"
  by (auto simp add: disable_def do_disable_def and_then_def ret_def dest: abort_Inr
      split: prod.splits sum.splits)

lemma disabled_camera_Inr:
  assumes "disabled_camera dev body c = (Inr v, c')"
  shows "\<exists>c1 c2. body c1 = (Inr v, c2) \<and> same_mirror c c1 \<and> same_mirror c2 c'"
proof (cases "enabled c")
  case False
  with assms have "body c = (Inr v, c')" by (simp add: disabled_camera_def)
  then show ?thesis using same_mirror_refl by blast
next
  case True
  obtain r c2 where o: "and_then (disable dev) (\<lambda>_. body) c = (r, c2)"
    by (cases "and_then (disable dev) (\<lambda>_. body) c")
  with assms True have t: "try_finally (r, c2) (enable dev) = (Inr v, c')"
    by (simp add: disabled_camera_def)
  from try_finally_cases [OF t] have r: "r = Inr v" and en: "enable dev c2 = (Inr (), c')" by auto
  from o r obtain u c1 where d: "disable dev c = (Inr u, c1)" and b: "body c1 = (Inr v, c2)"
    by (auto dest: and_then_Inr)
  have "same_mirror c c1" using keeps_disable d by (rule keeps_mirrorD)
  moreover have "same_mirror c2 c'" using keeps_enable en by (rule keeps_mirrorD)
  ultimately show ?thesis using b by blast
qed

text \<open>
  Claim C6, as the code has it. \<^verbatim>\<open>_disabled_camera\<close> on a camera that is not enabled
  runs the body and nothing else. On an enabled camera it calls \<^verbatim>\<open>disable\<close>. If that
  returns, the body runs on a camera that is neither enabled nor acquiring, and whether
  the body returned or raised, \<^verbatim>\<open>enable\<close> is called on the camera the body left: if it
  returns, the camera is enabled and the outcome of the statement is that of the body; if
  it raises, the outcome is its exception, on the camera as the failed call left it. If
  \<^verbatim>\<open>disable\<close> raises, the body does not run and \<^verbatim>\<open>enable\<close> is called all the same: if it
  returns, the camera is enabled and the exception of \<^verbatim>\<open>disable\<close> is the outcome; if it
  raises, its own exception is. \<^verbatim>\<open>_enabled_camera\<close> is the mirror image, with \<^verbatim>\<open>enable\<close>
  before the body and \<^verbatim>\<open>disable\<close> after it.
\<close>

theorem scoped_helpers:
  "(\<not> enabled c \<longrightarrow> disabled_camera dev body c = body c) \<and>
   (enabled c \<longrightarrow>
      (\<forall>c1. disable dev c = (Inr (), c1) \<longrightarrow>
         \<not> enabled c1 \<and> \<not> acquiring c1 \<and>
         (\<forall>rb c2. body c1 = (rb, c2) \<longrightarrow>
            (\<forall>c3. enable dev c2 = (Inr (), c3) \<longrightarrow>
               disabled_camera dev body c = (rb, c3) \<and> enabled c3) \<and>
            (\<forall>e c3. enable dev c2 = (Inl e, c3) \<longrightarrow>
               disabled_camera dev body c = (Inl e, c3)))) \<and>
      (\<forall>e0 c1. disable dev c = (Inl e0, c1) \<longrightarrow>
         (\<forall>c3. enable dev c1 = (Inr (), c3) \<longrightarrow>
            disabled_camera dev body c = (Inl e0, c3) \<and> enabled c3) \<and>
         (\<forall>e c3. enable dev c1 = (Inl e, c3) \<longrightarrow>
            disabled_camera dev body c = (Inl e, c3)))) \<and>
   (enabled c \<longrightarrow> enabled_camera dev body c = body c) \<and>
   (\<not> enabled c \<longrightarrow>
      (\<forall>c1. enable dev c = (Inr (), c1) \<longrightarrow>
         enabled c1 \<and> acquiring c1 \<and>
         (\<forall>rb c2. body c1 = (rb, c2) \<longrightarrow>
            (\<forall>c3. disable dev c2 = (Inr (), c3) \<longrightarrow>
               enabled_camera dev body c = (rb, c3) \<and> \<not> enabled c3) \<and>
            (\<forall>e c3. disable dev c2 = (Inl e, c3) \<longrightarrow>
               enabled_camera dev body c = (Inl e, c3)))) \<and>
      (\<forall>e0 c1. enable dev c = (Inl e0, c1) \<longrightarrow>
         (\<forall>c3. disable dev c1 = (Inr (), c3) \<longrightarrow>
            enabled_camera dev body c = (Inl e0, c3) \<and> \<not> enabled c3) \<and>
         (\<forall>e c3. disable dev c1 = (Inl e, c3) \<longrightarrow>
            enabled_camera dev body c = (Inl e, c3))))"
  by (intro conjI impI allI)
    (auto simp add: disabled_camera_def enabled_camera_def and_then_def try_finally_def
      dest: enable_Inr disable_Inr)

theorem scoped_helpers_witness:
  "disabled_camera scripted (set_exposure_time scripted 7) (camera0 []) =
     set_exposure_time scripted 7 (camera0 []) \<and>
   disabled_camera scripted (set_exposure_time scripted 7) (camera1 []) =
     (Inr (), (camera1 [])\<lparr>trace := [Acquiring False, Hw stop_acquisition,
        Hw (set_exposure_direct 7), Hw start_acquisition, Acquiring True]\<rparr>) \<and>
   disabled_camera scripted (and_then (set_exposure_time scripted 7) (\<lambda>_. raise KeyError))
       (camera1 []) =
     (Inl KeyError :: exn + unit, (camera1 [])\<lparr>trace := [Acquiring False, Hw stop_acquisition,
        Hw (set_exposure_direct 7), Hw start_acquisition, Acquiring True]\<rparr>) \<and>
   disabled_camera scripted (set_exposure_time scripted 7)
       (camera1 [(stop_acquisition, Xi_error (Some 1))]) =
     (Inl (Xi_error (Some 1)), (camera1 [])\<lparr>trace := [Acquiring False, Hw stop_acquisition,
        Acquiring True, Acquiring False, Hw stop_acquisition, Hw start_acquisition,
        Acquiring True]\<rparr>) \<and>
   enabled_camera scripted (set_exposure_time scripted 7) (camera1 []) =
     set_exposure_time scripted 7 (camera1 []) \<and>
   enabled_camera scripted (set_exposure_time scripted 7) (camera0 []) =
     (Inr (), (camera0 [])\<lparr>trace := [Hw start_acquisition, Acquiring True,
        Hw (set_exposure_direct 7), Acquiring False, Hw stop_acquisition]\<rparr>)"
proof -
  define CD :: "(hw_call \<times> exn) list camera" where
    "CD = (camera1 [])\<lparr>enabled := False, acquiring := False,
                         trace := [Acquiring False, Hw stop_acquisition]\<rparr>"
  define CB :: "(hw_call \<times> exn) list camera" where
    "CB = (camera1 [])\<lparr>enabled := False, acquiring := False,
             trace := [Acquiring False, Hw stop_acquisition, Hw (set_exposure_direct 7)]\<rparr>"
  define CF :: "(hw_call \<times> exn) list camera" where
    "CF = (camera1 [])\<lparr>trace := [Acquiring False, Hw stop_acquisition, Acquiring True]\<rparr>"
  define CE :: "(hw_call \<times> exn) list camera" where
    "CE = (camera0 [])\<lparr>enabled := True, acquiring := True,
                         trace := [Hw start_acquisition, Acquiring True]\<rparr>"
  define CG :: "(hw_call \<times> exn) list camera" where
    "CG = (camera0 [])\<lparr>enabled := True, acquiring := True,
             trace := [Hw start_acquisition, Acquiring True, Hw (set_exposure_direct 7)]\<rparr>"
  have c0: "\<not> enabled (camera0 ([] :: (hw_call \<times> exn) list))"
    by (simp add: camera0_def)
  have c1: "enabled (camera1 ([] :: (hw_call \<times> exn) list))"
    by (simp add: camera1_def)
  have c1': "enabled (camera1 [(stop_acquisition, Xi_error (Some 1))])"
    by (simp add: camera1_def)
  have d: "disable scripted (camera1 []) = (Inr (), CD)"
    by (simp add: disable_def do_disable_def abort_def and_then_def ret_def call_def
        set_acquiring_def camera0_def camera1_def CD_def)
  have b: "set_exposure_time scripted 7 CD = (Inr (), CB)"
    by (simp add: set_exposure_time_def call_def CD_def CB_def camera0_def camera1_def)
  have b': "and_then (set_exposure_time scripted 7) (\<lambda>_. raise KeyError) CD
      = (Inl KeyError :: exn + unit, CB)"
    by (simp add: and_then_def b raise_def)
  have en: "enable scripted CB = (Inr (), (camera1 [])\<lparr>trace := [Acquiring False,
        Hw stop_acquisition, Hw (set_exposure_direct 7), Hw start_acquisition, Acquiring True]\<rparr>)"
    by (simp add: enable_def do_enable_def and_then_def ret_def call_def
        set_acquiring_def camera0_def camera1_def CB_def)
  have df: "disable scripted (camera1 [(stop_acquisition, Xi_error (Some 1))])
      = (Inl (Xi_error (Some 1)), CF)"
    by (simp add: disable_def do_disable_def abort_def and_then_def ret_def call_def
        set_acquiring_def camera0_def camera1_def CF_def)
  have ef: "enable scripted CF = (Inr (), (camera1 [])\<lparr>trace := [Acquiring False,
        Hw stop_acquisition, Acquiring True, Acquiring False, Hw stop_acquisition,
        Hw start_acquisition, Acquiring True]\<rparr>)"
    by (simp add: enable_def do_enable_def abort_def and_then_def ret_def call_def
        set_acquiring_def camera0_def camera1_def CF_def)
  have e: "enable scripted (camera0 []) = (Inr (), CE)"
    by (simp add: enable_def do_enable_def and_then_def ret_def call_def
        set_acquiring_def camera0_def CE_def)
  have g: "set_exposure_time scripted 7 CE = (Inr (), CG)"
    by (simp add: set_exposure_time_def call_def CE_def CG_def camera0_def)
  have dg: "disable scripted CG = (Inr (), (camera0 [])\<lparr>trace := [Hw start_acquisition,
        Acquiring True, Hw (set_exposure_direct 7), Acquiring False, Hw stop_acquisition]\<rparr>)"
    by (simp add: disable_def do_disable_def abort_def and_then_def ret_def call_def
        set_acquiring_def camera0_def CG_def)
  have 1: "disabled_camera scripted (set_exposure_time scripted 7) (camera0 []) =
     set_exposure_time scripted 7 (camera0 [])"
    using scoped_helpers [of "camera0 []" scripted "set_exposure_time scripted 7"] c0 by blast
  have 2: "disabled_camera scripted (set_exposure_time scripted 7) (camera1 []) =
     (Inr (), (camera1 [])\<lparr>trace := [Acquiring False, Hw stop_acquisition,
        Hw (set_exposure_direct 7), Hw start_acquisition, Acquiring True]\<rparr>)"
    using scoped_helpers [of "camera1 []" scripted "set_exposure_time scripted 7"] c1 d b en
    by blast
  have 3: "disabled_camera scripted (and_then (set_exposure_time scripted 7) (\<lambda>_. raise KeyError))
       (camera1 []) =
     (Inl KeyError :: exn + unit, (camera1 [])\<lparr>trace := [Acquiring False, Hw stop_acquisition,
        Hw (set_exposure_direct 7), Hw start_acquisition, Acquiring True]\<rparr>)"
    using scoped_helpers [of "camera1 []" scripted
        "and_then (set_exposure_time scripted 7) (\<lambda>_. raise KeyError) :: (unit, _) action"]
      c1 d b' en
    by blast
  have 4: "disabled_camera scripted (set_exposure_time scripted 7)
       (camera1 [(stop_acquisition, Xi_error (Some 1))]) =
     (Inl (Xi_error (Some 1)), (camera1 [])\<lparr>trace := [Acquiring False, Hw stop_acquisition,
        Acquiring True, Acquiring False, Hw stop_acquisition, Hw start_acquisition,
        Acquiring True]\<rparr>)"
    using scoped_helpers [of "camera1 [(stop_acquisition, Xi_error (Some 1))]" scripted
        "set_exposure_time scripted 7"] c1' df ef
    by blast
  have 5: "enabled_camera scripted (set_exposure_time scripted 7) (camera1 []) =
     set_exposure_time scripted 7 (camera1 [])"
    using scoped_helpers [of "camera1 []" scripted "set_exposure_time scripted 7"] c1 by blast
  have 6: "enabled_camera scripted (set_exposure_time scripted 7) (camera0 []) =
     (Inr (), (camera0 [])\<lparr>trace := [Hw start_acquisition, Acquiring True,
        Hw (set_exposure_direct 7), Acquiring False, Hw stop_acquisition]\<rparr>)"
    using scoped_helpers [of "camera0 []" scripted "set_exposure_time scripted 7"] c0 e g dg
    by blast
  from 1 2 3 4 5 6 show ?thesis by blast
qed

text \<open>
  The claim as stated fails where the closing call fails: an enabled, acquiring camera
  whose device rejects the start call. The body (here one that only returns) completes,
  the \<^verbatim>\<open>enable\<close> of the \<^verbatim>\<open>finally\<close> clause raises, and the camera that was enabled
  before the \<^verbatim>\<open>with\<close> statement is not enabled after it.
\<close>

theorem disabled_camera_counterexample:
  "enabled (camera1 [(start_acquisition, Xi_error (Some 1))]) \<and>
   disabled_camera scripted (ret ()) (camera1 [(start_acquisition, Xi_error (Some 1))]) =
     (Inl (Xi_error (Some 1)),
      (camera1 [])\<lparr>enabled := False, acquiring := False,
                    trace := [Acquiring False, Hw stop_acquisition, Hw start_acquisition]\<rparr>) \<and>
   \<not> enabled (snd (disabled_camera scripted (ret ())
                      (camera1 [(start_acquisition, Xi_error (Some 1))])))"
proof -
  have en: "enabled (camera1 [(start_acquisition, Xi_error (Some 1))])"
    by (simp add: camera1_def)
  have d: "disable scripted (camera1 [(start_acquisition, Xi_error (Some 1))]) =
     (Inr (), (camera1 [(start_acquisition, Xi_error (Some 1))])\<lparr>enabled := False, acquiring := False,
                    trace := [Acquiring False, Hw stop_acquisition]\<rparr>)"
    by (simp add: disable_def do_disable_def abort_def and_then_def ret_def call_def
        set_acquiring_def camera0_def camera1_def)
  have e: "enable scripted ((camera1 [(start_acquisition, Xi_error (Some 1))])\<lparr>enabled := False, acquiring := False,
                    trace := [Acquiring False, Hw stop_acquisition]\<rparr>) =
     (Inl (Xi_error (Some 1)),
      (camera1 [])\<lparr>enabled := False, acquiring := False,
                    trace := [Acquiring False, Hw stop_acquisition, Hw start_acquisition]\<rparr>)"
    by (simp add: enable_def do_enable_def and_then_def ret_def call_def
        set_acquiring_def camera0_def camera1_def)
  have r: "disabled_camera scripted (ret ()) (camera1 [(start_acquisition, Xi_error (Some 1))]) =
     (Inl (Xi_error (Some 1)),
      (camera1 [])\<lparr>enabled := False, acquiring := False,
                    trace := [Acquiring False, Hw stop_acquisition, Hw start_acquisition]\<rparr>)"
    by (simp add: disabled_camera_def en and_then_def d ret_def try_finally_def e)
  show ?thesis
    by (simp add: en r)
qed

section \<open>Setters and failures of the device\<close>

lemma call_Inr: "call dev k c = (Inr v, c') \<Longrightarrow> \<exists>h'. dev k (handle c) = (Inr v, h')"
  by (auto simp add: call_def split: prod.splits)

lemma trigger_push_Inr:
  assumes "and_then (call dev (set_trigger_source a)) (\<lambda>_.
           and_then (call dev (set_trigger_selector b)) (\<lambda>_. ret ())) c = (Inr u, c')"
  shows "(\<exists>h v h'. dev (set_trigger_source a) h = (Inr v, h'))
       \<and> (\<exists>h v h'. dev (set_trigger_selector b) h = (Inr v, h'))"
proof -
  from and_then_Inr [OF assms] obtain v c1
    where 1: "call dev (set_trigger_source a) c = (Inr v, c1)"
      and 2: "and_then (call dev (set_trigger_selector b)) (\<lambda>_. ret ()) c1 = (Inr u, c')"
    by blast
  from and_then_Inr [OF 2] obtain v2 c2
    where 3: "call dev (set_trigger_selector b) c1 = (Inr v2, c2)"
    by blast
  from call_Inr [OF 1] call_Inr [OF 3] show ?thesis by blast
qed

lemma keeps_trigger_push:
  "keeps_mirror (and_then (call dev (set_trigger_source a)) (\<lambda>_.
                 and_then (call dev (set_trigger_selector b)) (\<lambda>_. ret ())))"
  by (intro keeps_and_then keeps_call keeps_ret)

lemma set_trigger_Inl:
  assumes "set_trigger dev ttype tmode c = (Inl e, c')"
  shows "trigger_map c' = trigger_map c"
proof (cases "table_item (ttype, tmode)")
  case (Inl x)
  with assms show ?thesis by (simp add: set_trigger_def)
next
  case (Inr nm)
  show ?thesis
  proof (cases "nm = trigger_map c")
    case True
    with assms Inr show ?thesis by (simp add: set_trigger_def)
  next
    case False
    obtain r c1 where w: "disabled_camera dev
        (and_then (call dev (set_trigger_source (fst nm))) (\<lambda>_.
         and_then (call dev (set_trigger_selector (snd nm))) (\<lambda>_. ret ()))) c = (r, c1)"
      by (cases "disabled_camera dev
        (and_then (call dev (set_trigger_source (fst nm))) (\<lambda>_.
         and_then (call dev (set_trigger_selector (snd nm))) (\<lambda>_. ret ()))) c")
    have m: "same_mirror c c1"
      using keeps_disabled_camera [OF keeps_trigger_push] w by (rule keeps_mirrorD)
    from assms Inr False w have "r = Inl e \<and> c' = c1"
      by (cases r) (simp_all add: set_trigger_def and_then_def ret_def)
    with m show ?thesis by (simp add: same_mirror_def)
  qed
qed

lemma set_trigger_Inr:
  assumes "set_trigger dev ttype tmode c = (Inr u, c')"
    and "TRIGGER_TABLE (ttype, tmode) = Some nm" and "nm \<noteq> trigger_map c"
  shows "(\<exists>h v h'. dev (set_trigger_source (fst nm)) h = (Inr v, h'))
       \<and> (\<exists>h v h'. dev (set_trigger_selector (snd nm)) h = (Inr v, h'))
       \<and> trigger_map c' = nm"
proof -
  obtain r c1 where w: "disabled_camera dev
      (and_then (call dev (set_trigger_source (fst nm))) (\<lambda>_.
       and_then (call dev (set_trigger_selector (snd nm))) (\<lambda>_. ret ()))) c = (r, c1)"
    by (cases "disabled_camera dev
      (and_then (call dev (set_trigger_source (fst nm))) (\<lambda>_.
       and_then (call dev (set_trigger_selector (snd nm))) (\<lambda>_. ret ()))) c")
  from assms w have r: "r = Inr ()" and c': "c' = c1\<lparr>trigger_map := nm\<rparr>"
    by (cases r; simp add: set_trigger_def table_item_def and_then_def ret_def)+
  from disabled_camera_Inr [OF w [unfolded r]] obtain ca cb
    where "and_then (call dev (set_trigger_source (fst nm))) (\<lambda>_.
       and_then (call dev (set_trigger_selector (snd nm))) (\<lambda>_. ret ())) ca = (Inr (), cb)"
    by blast
  from trigger_push_Inr [OF this] c' show ?thesis by simp
qed

lemma set_trigger_map:
  assumes "set_trigger dev ttype tmode c = (res, c')"
  shows "trigger_map c' = trigger_map c \<or> TRIGGER_TABLE (ttype, tmode) = Some (trigger_map c')"
proof (cases res)
  case (Inl e)
  with assms show ?thesis by (simp add: set_trigger_Inl)
next
  case (Inr u)
  show ?thesis
  proof (cases "TRIGGER_TABLE (ttype, tmode)")
    case None
    with assms show ?thesis by (simp add: set_trigger_def table_item_def)
  next
    case (Some nm)
    show ?thesis
    proof (cases "nm = trigger_map c")
      case True
      with assms Some show ?thesis by (simp add: set_trigger_def table_item_def)
    next
      case False
      from set_trigger_Inr [OF assms [unfolded Inr] Some False] Some show ?thesis by simp
    qed
  qed
qed








section \<open>The trigger properties\<close>

lemma trigger_trigger_map: "trigger dev c = (res, c') \<Longrightarrow> trigger_map c' = trigger_map c"
  by (auto simp add: trigger_def do_trigger_def and_then_def call_def ret_def
      split: if_splits prod.splits sum.splits)

lemma fetch_data_trigger_map:
  "fetch_data dev image_data now c = (res, c') \<Longrightarrow> trigger_map c' = trigger_map c"
  by (auto simp add: fetch_data_def call_def split: if_splits prod.splits sum.splits exn.splits)

lemma set_exposure_time_trigger_map:
  "set_exposure_time dev us c = (res, c') \<Longrightarrow> trigger_map c' = trigger_map c"
  by (auto simp add: set_exposure_time_def call_def split: prod.splits sum.splits)

lemma set_binning_trigger_map:
  "set_binning b c = (res, c') \<Longrightarrow> trigger_map c' = trigger_map c"
  by (auto simp add: set_binning_def split: if_splits)

lemma keeps_trigger_map: "keeps_mirror m \<Longrightarrow> m c = (res, c') \<Longrightarrow> trigger_map c' = trigger_map c"
  by (drule (1) keeps_mirrorD) (simp add: same_mirror_def)

lemma reachable_trigger_map:
  "reachable c \<Longrightarrow> \<exists>key. TRIGGER_TABLE key = Some (trigger_map c)"
proof (induction rule: reachable.induct)
  case (init c)
  then have "TRIGGER_TABLE (SOFTWARE, ONCE) = Some (trigger_map c)"
    by (simp add: table_item_def split: option.splits)
  then show ?case ..
next
  case (by_set_trigger c dev ttype tmode res c')
  from set_trigger_map [OF by_set_trigger.hyps(2)]
  have "trigger_map c' = trigger_map c \<or> TRIGGER_TABLE (ttype, tmode) = Some (trigger_map c')" .
  then show ?case
  proof
    assume "trigger_map c' = trigger_map c"
    with by_set_trigger.IH show ?thesis by simp
  next
    assume "TRIGGER_TABLE (ttype, tmode) = Some (trigger_map c')"
    then show ?thesis ..
  qed
next
  case (by_set_roi c n dev r res' c')
  then show ?case by (simp add: set_roi_trigger_map)
next
  case (by_enable c dev res c')
  then show ?case by (simp add: keeps_trigger_map [OF keeps_enable])
next
  case (by_disable c dev res c')
  then show ?case by (simp add: keeps_trigger_map [OF keeps_disable])
next
  case (by_abort c dev res c')
  then show ?case by (simp add: keeps_trigger_map [OF keeps_abort])
next
  case (by_trigger c dev res c')
  then show ?case by (simp add: trigger_trigger_map)
next
  case (by_fetch_data c dev image_data now res'' c')
  then show ?case by (simp add: fetch_data_trigger_map)
next
  case (by_set_exposure_time c dev us res c')
  then show ?case by (simp add: set_exposure_time_trigger_map)
next
  case (by_set_binning c b res' c')
  then show ?case by (simp add: set_binning_trigger_map)
qed

text \<open>
  Claim C10. In every reachable state the property \<^verbatim>\<open>trigger_type\<close> is the first and
  \<^verbatim>\<open>trigger_mode\<close> the second component of the cached pair \<^verbatim>\<open>_trigger_map\<close>, and
  that pair is a value of the table: the type is one of the three source codes of the
  device and the mode is the selector code, all of them strings and none of them a
  member of \<open>TriggerType\<close> or \<open>TriggerMode\<close>.
\<close>

theorem trigger_properties_native:
  assumes "reachable c"
  shows "trigger_type c = fst (trigger_map c) \<and> trigger_mode c = snd (trigger_map c) \<and>
         trigger_type c \<in> {''XI_TRG_OFF'', ''XI_TRG_SOFTWARE'', ''XI_TRG_EDGE_RISING''} \<and>
         trigger_mode c = ''XI_TRG_SEL_FRAME_START''"
proof -
  from reachable_trigger_map [OF assms] obtain key
    where "TRIGGER_TABLE key = Some (trigger_map c)" ..
  from TRIGGER_TABLE_ran [OF this] show ?thesis
    by (simp add: trigger_type_def trigger_mode_def)
qed

theorem trigger_properties_native_witness:
  "reachable (camera0 ()) \<and>
   reachable ((camera0 ())\<lparr>trigger_map := (''XI_TRG_OFF'', ''XI_TRG_SEL_FRAME_START''),
        trace := [Hw (set_trigger_source ''XI_TRG_OFF''),
                  Hw (set_trigger_selector ''XI_TRG_SEL_FRAME_START'')]\<rparr>) \<and>
   trigger_type (camera0 ()) = ''XI_TRG_SOFTWARE'' \<and>
   trigger_mode (camera0 ()) = ''XI_TRG_SEL_FRAME_START'' \<and>
   trigger_type ((camera0 ())\<lparr>trigger_map := (''XI_TRG_OFF'', ''XI_TRG_SEL_FRAME_START''),
        trace := [Hw (set_trigger_source ''XI_TRG_OFF''),
                  Hw (set_trigger_selector ''XI_TRG_SEL_FRAME_START'')]\<rparr>) = ''XI_TRG_OFF''"
proof -
  have r0: "reachable (camera0 ())"
    by (rule reachable.init) (simp add: camera0_def)
  have s: "set_trigger (refusing get_image KeyError) SOFTWARE STROBE (camera0 ()) =
     (Inr (), (camera0 ())\<lparr>trigger_map := (''XI_TRG_OFF'', ''XI_TRG_SEL_FRAME_START''),
        trace := [Hw (set_trigger_source ''XI_TRG_OFF''),
                  Hw (set_trigger_selector ''XI_TRG_SEL_FRAME_START'')]\<rparr>)"
    by (simp add: set_trigger_def table_item_def TRIGGER_TABLE_def disabled_camera_def
        and_then_def call_def ret_def refusing_def camera0_def)
  have r1: "reachable ((camera0 ())\<lparr>trigger_map := (''XI_TRG_OFF'', ''XI_TRG_SEL_FRAME_START''),
        trace := [Hw (set_trigger_source ''XI_TRG_OFF''),
                  Hw (set_trigger_selector ''XI_TRG_SEL_FRAME_START'')]\<rparr>)"
    using r0 s by (rule reachable.by_set_trigger)
  show ?thesis
    using r0 r1 trigger_properties_native [OF r0] trigger_properties_native [OF r1]
    by (simp add: camera0_def)
qed

section \<open>Rounding of the floating-point quotient\<close>












section \<open>The retry on the increment grid\<close>



lemma nearest_multiple_unique:
  assumes i: "incr \<noteq> 0"
    and 1: "nearest_multiple incr v w" and 2: "nearest_multiple incr v w'"
  shows "w = w'"
proof (rule ccontr)
  assume ne: "w \<noteq> w'"
  from 1 2 obtain k k' where k: "w = incr * k" and k': "w' = incr * k'"
    by (auto simp add: nearest_multiple_def elim!: dvdE)
  from 1 2 have d: "2 * \<bar>w - v\<bar> \<le> \<bar>incr\<bar>" "2 * \<bar>w' - v\<bar> \<le> \<bar>incr\<bar>"
    by (simp_all add: nearest_multiple_def)
  have "w - w' = incr * (k - k')" by (simp add: k k' algebra_simps)
  then have ww: "\<bar>w - w'\<bar> = \<bar>incr\<bar> * \<bar>k - k'\<bar>" by (simp add: abs_mult)
  from ne have "k \<noteq> k'" by (auto simp add: k k')
  then have "1 \<le> \<bar>k - k'\<bar>" by simp
  then have "\<bar>incr\<bar> * 1 \<le> \<bar>incr\<bar> * \<bar>k - k'\<bar>" by (intro mult_left_mono) simp_all
  with ww have ge: "\<bar>incr\<bar> \<le> \<bar>w - w'\<bar>" by simp
  have "\<bar>w - w'\<bar> \<le> \<bar>w - v\<bar> + \<bar>w' - v\<bar>" by linarith
  with d ge have t: "2 * \<bar>w - v\<bar> = \<bar>incr\<bar>" "2 * \<bar>w' - v\<bar> = \<bar>incr\<bar>"
    and eq: "\<bar>w - w'\<bar> = \<bar>incr\<bar>" by linarith+
  from eq ww i have one: "\<bar>k - k'\<bar> = 1" by simp
  from 1 t(1) have "even (w div incr)" by (simp add: nearest_multiple_def)
  moreover from 2 t(2) have "even (w' div incr)" by (simp add: nearest_multiple_def)
  ultimately have "even k" "even k'" using i by (simp_all add: k k')
  then have "even (k - k')" by simp
  then have "even \<bar>k - k'\<bar>" by simp
  with one show False by simp
qed















section \<open>Failures while setting the region\<close>

lemma set_roi_out_of_bounds:
  "fst (sensor_shape c) < width r + left r \<or> snd (sensor_shape c) < height r + top' r \<Longrightarrow>
   set_roi (Suc n) dev r c = Some (Inl (ValueError r (sensor_shape c)), c)"
  by simp

lemma set_roi_Inr_cases:
  assumes "set_roi n dev r c = Some (Inr b, c')"
  shows "roi c' = r \<or>
    (\<exists>ca cb. roi_retry dev r ca = (Inr (roi c'), cb) \<and> roi ca = roi c)"
proof (cases n)
  case 0
  with assms show ?thesis by simp
next
  case (Suc k)
  note s = assms [unfolded Suc]
  define P where "P = (\<lambda>r'. \<exists>ca cb. roi_retry dev r ca = (Inr r', cb) \<and> roi ca = roi c)"
  show ?thesis
  proof (cases "fst (sensor_shape c) < width r + left r \<or> snd (sensor_shape c) < height r + top' r")
    case True
    with s show ?thesis by simp
  next
    case False
    obtain r1 c1 where w: "disabled_camera dev (roi_writes dev r) c = (r1, c1)"
      by (cases "disabled_camera dev (roi_writes dev r) c")
    have m1: "same_mirror c c1"
      using keeps_disabled_camera [OF keeps_roi_writes] w by (rule keeps_mirrorD)
    obtain r2 c2 where t: "disabled_camera dev (roi_retry dev r) c1 = (r2, c2)"
      by (cases "disabled_camera dev (roi_retry dev r) c1")
    have retry: "P r'" if "r2 = Inr r'" for r'
    proof -
      from disabled_camera_Inr [OF t [unfolded that]] obtain ca cb
        where "roi_retry dev r ca = (Inr r', cb)" and "same_mirror c1 ca" by blast
      with m1 show ?thesis by (auto simp add: P_def same_mirror_def)
    qed
    have "roi c' = r \<or> P (roi c')"
    proof (cases r2)
      case (Inl e2)
      with s False w t show ?thesis
        by (simp split: sum.splits exn.splits option.splits if_splits prod.splits) auto
    next
      case (Inr r')
      from retry [OF Inr] have p: "P r'" .
      from s False w t Inr have "roi c' = r \<or> roi c' = r'"
        by (simp split: sum.splits exn.splits option.splits if_splits prod.splits) auto
      with p show ?thesis by auto
    qed
    then show ?thesis by (simp add: P_def)
  qed
qed

lemma roi_retry_same:
  assumes "roi_retry dev (roi c) c = (Inr r', c')"
  shows "r' = roi c"
  using assms by (auto simp add: roi_retry_def adjust_def and_then_def ret_def)

lemma set_roi_restore:
  assumes "set_roi n dev (roi c) c = Some (Inr b, c')"
  shows "roi c' = roi c"
proof -
  from set_roi_Inr_cases [OF assms] show ?thesis
  proof
    assume "roi c' = roi c"
    then show ?thesis .
  next
    assume "\<exists>ca cb. roi_retry dev (roi c) ca = (Inr (roi c'), cb) \<and> roi ca = roi c"
    then obtain ca cb where b: "roi_retry dev (roi c) ca = (Inr (roi c'), cb)"
      and a: "roi ca = roi c" by blast
    from b a have "roi_retry dev (roi ca) ca = (Inr (roi c'), cb)" by simp
    from roi_retry_same [OF this] a show ?thesis by simp
  qed
qed

lemma set_roi_recurses:
  assumes "\<not> (fst (sensor_shape c) < width r + left r \<or> snd (sensor_shape c) < height r + top' r)"
    and "disabled_camera dev (roi_writes dev r) c = (Inl ex, c1)"
    and "\<forall>status. ex \<noteq> Xi_error status"
  shows "set_roi (Suc n) dev r c =
     (case set_roi n dev (roi c1) c1 of
        None \<Rightarrow> None
      | Some (Inl e', c2) \<Rightarrow> Some (Inl e', c2)
      | Some (Inr _, c2) \<Rightarrow> Some (Inl ex, c2))"
  using assms by (cases ex) (simp_all split: option.splits prod.splits sum.splits)

lemma set_roi_raises_keeps_roi:
  "set_roi n dev r c = Some (Inl e, c') \<Longrightarrow> roi c' = roi c"
proof (induction n arbitrary: r c e c')
  case 0
  then show ?case by simp
next
  case (Suc n)
  show ?case
  proof (cases "fst (sensor_shape c) < width r + left r \<or> snd (sensor_shape c) < height r + top' r")
    case True
    with Suc.prems show ?thesis by simp
  next
    case False
    obtain r1 c1 where w: "disabled_camera dev (roi_writes dev r) c = (r1, c1)"
      by (cases "disabled_camera dev (roi_writes dev r) c")
    have m1: "roi c1 = roi c"
      using keeps_mirrorD [OF keeps_disabled_camera [OF keeps_roi_writes] w]
      by (simp add: same_mirror_def)
    show ?thesis
    proof (cases r1)
      case (Inr u)
      with Suc.prems False w show ?thesis by simp
    next
      case (Inl ex)
      show ?thesis
      proof (cases "\<exists>status. ex = Xi_error status")
        case True
        then obtain status where ex: "ex = Xi_error status" ..
        obtain r2 c2 where t: "disabled_camera dev (roi_retry dev r) c1 = (r2, c2)"
          by (cases "disabled_camera dev (roi_retry dev r) c1")
        have m2: "roi c2 = roi c1"
          using keeps_mirrorD [OF keeps_disabled_camera [OF keeps_roi_retry] t]
          by (simp add: same_mirror_def)
        from Suc.prems False w Inl ex t have "c' = c1 \<or> c' = c2"
          by (cases status; cases r2) (simp_all split: if_splits)
        with m1 m2 show ?thesis by auto
      next
        case False
        then have nx: "\<forall>status. ex \<noteq> Xi_error status" by simp
        note u = set_roi_recurses [OF \<open>\<not> (fst (sensor_shape c) < width r + left r
            \<or> snd (sensor_shape c) < height r + top' r)\<close> w [unfolded Inl] nx, of n]
        show ?thesis
        proof (cases "set_roi n dev (roi c1) c1")
          case None
          with u Suc.prems show ?thesis by simp
        next
          case (Some p)
          obtain r3 c3 where p: "p = (r3, c3)" by (cases p)
          show ?thesis
          proof (cases r3)
            case (Inl e')
            with u Some p Suc.prems have "c' = c3" by simp
            moreover from Suc.IH [of "roi c1" c1 e' c3] Some p Inl have "roi c3 = roi c1" by simp
            ultimately show ?thesis using m1 by simp
          next
            case (Inr b)
            with u Some p Suc.prems have "c' = c3" by simp
            moreover from set_roi_restore [of n dev c1 b c3] Some p Inr have "roi c3 = roi c1" by simp
            ultimately show ?thesis using m1 by simp
          qed
        qed
      qed
    qed
  qed
qed

text \<open>
  Claim C1 says that a failure of \<^verbatim>\<open>_set_roi\<close> other than a recovered rejection is raised
  to the caller with the mirrored region as before. The lemmas above are the part that
  the code does: a request that does not fit raises \<^verbatim>\<open>ValueError\<close> on the unchanged
  camera, and whenever the method raises, the mirrored region is the one before the call.
  The part it does not do: a \<^verbatim>\<open>Xi_error\<close> raised by a write with a status other than
  invalid arguments enters the handler of line 346, which does nothing for it, and is
  not raised again. On a device that answers \<^verbatim>\<open>set_width(50)\<close> with status 12 the method
  returns \<^verbatim>\<open>True\<close>, the writes after the failed one are never made, and the mirrored
  region is the requested one, which the device does not hold.
\<close>

theorem set_roi_swallows_other_status:
  "set_roi (Suc 0) scripted (ROI 0 0 50 50) (camera0 [(set_width 50, Xi_error (Some 12))]) =
     Some (Inr True,
       (camera0 [])\<lparr>roi := ROI 0 0 50 50,
                     trace := [Hw (set_offsetX 0), Hw (set_offsetY 0), Hw (set_width 50)]\<rparr>)"
proof -
  have w: "disabled_camera scripted (roi_writes scripted (ROI 0 0 50 50))
       (camera0 [(set_width 50, Xi_error (Some 12))]) =
     (Inl (Xi_error (Some 12)),
      (camera0 [])\<lparr>trace := [Hw (set_offsetX 0), Hw (set_offsetY 0), Hw (set_width 50)]\<rparr>)"
    by (simp add: disabled_camera_def roi_writes_def and_then_def call_def ret_def camera0_def)
  show ?thesis
    by (simp add: w XI_INVALID_ARGUMENTS_def) (simp add: camera0_def)
qed

end
